theory Spec2Isabelle
  imports Main "HOL-Library.Word"
begin

unbundle bit_operations_syntax

section \<open>Data model of tccp.cpp\<close>

text \<open>
  The fixed-width integers of the source are words: \<open>uint8_t\<close> is \<open>8 word\<close>,
  \<open>uint32_t\<close> and \<open>int\<close> are \<open>32 word\<close> (the latter read through \<open>sint\<close>),
  \<open>uint64_t\<close>, \<open>int64_t\<close> and \<open>size_t\<close> (LP64) are \<open>64 word\<close>.
  A \<open>uint256\<close> is an opaque blob of 32 bytes and a \<open>CScript\<close> is a byte vector; both
  are byte lists, in memory order.
\<close>

type_synonym byte = "8 word"
type_synonym uint32 = "32 word"
type_synonym uint64 = "64 word"
type_synonym size_t = "64 word"
type_synonym uint256 = "byte list"
type_synonym CScript = "byte list"

text \<open>\<open>uint256()\<close>: the default-constructed blob, 32 zero bytes.\<close>

definition uint256_zero :: uint256 where
  "uint256_zero = replicate 32 0"

section \<open>class LCG (tccp.cpp, lines 20-29)\<close>

text \<open>
  Modelled from the spec: \<open>bit_cast\<close> (util/bit_cast.h is not part of the sources at
  hand). Section 4.2: the state is initialised "by truncating Seed to its low 64 bits
  (byte-reinterpretation, not a hash)". The blob is little-endian, so the low 64 bits are
  its first eight bytes, byte 0 the least significant.
\<close>

definition bit_cast_uint64 :: "uint256 \<Rightarrow> uint64" where
  "bit_cast_uint64 seed = foldr (\<lambda>b acc. ucast b + 256 * acc) (take 8 seed) 0"

text \<open>The constructor: \<open>m_state = bit_cast<uint64_t>(seed)\<close>. The object is its state.\<close>

definition LCG :: "uint256 \<Rightarrow> uint64" where
  "LCG seed = bit_cast_uint64 seed"

text \<open>
  \<open>next()\<close>: \<open>m_state = 1664525 * m_state + 1013904223; return m_state >> 32;\<close>
  The arithmetic is \<open>uint64_t\<close> arithmetic (the \<open>int\<close> literals are converted), the
  returned value is the shifted state converted to \<open>uint32_t\<close>. The result pairs the
  returned value with the updated state.
\<close>

definition LCG_next :: "uint64 \<Rightarrow> uint32 \<times> uint64" where
  "LCG_next m_state =
     (let m_state' = 1664525 * m_state + 1013904223
      in (ucast (drop_bit 32 m_state'), m_state'))"

section \<open>Transactions, blocks and the host's collaborators\<close>

text \<open>
  The fields of the host's value types that tccp.cpp reads or writes. A
  \<open>CMutableTransaction\<close> and the \<open>CTransaction\<close> behind a \<open>CTransactionRef\<close> carry
  the same fields and are one record; \<open>Amount\<close> is its 64-bit count.
\<close>

record COutPoint =
  outpoint_hash :: uint256
  outpoint_n :: uint32

record CTxIn =
  prevout :: COutPoint
  scriptSig :: CScript

record CTxOut =
  nValue :: "64 word"
  scriptPubKey :: CScript

record CTransaction =
  nVersion :: "32 word"
  vin :: "CTxIn list"
  vout :: "CTxOut list"
  nLockTime :: uint32

record CBlock =
  vtx :: "CTransaction list"

record CBlockIndex =
  GetBlockHash :: uint256

record Params =
  nTCCPChallengeSize :: size_t

text \<open>
  What tccp.cpp takes from headers that are not part of the sources at hand (script.h,
  hash.h, primitives/transaction.h, consensus/merkle.h and the declaration of the magic
  tag) is a parameter of the model: the two constants, the double hash of a byte string
  (\<open>CHash256\<close>: a sequence of \<open>Write\<close>s hashes the concatenation), the bytes that
  \<open>CScript::operator<<\<close> appends for an \<open>int64_t\<close> and for a byte vector, and the size,
  hash and Merkle-root functions.
\<close>

record host =
  OP_RETURN :: byte
  TCCP_MAGIC_BYTES :: "byte list"
  Hash256 :: "byte list \<Rightarrow> uint256"
  push_int64 :: "64 word \<Rightarrow> CScript"
  push_data :: "byte list \<Rightarrow> CScript"
  GetTotalSize :: "CTransaction \<Rightarrow> size_t"
  GetHash :: "CTransaction \<Rightarrow> uint256"
  ComputeMerkleRoot :: "uint256 list \<Rightarrow> uint256"
  BlockMerkleRoot :: "CTransaction list \<Rightarrow> uint256"

text \<open>
  \<open>InsecureRand256()\<close> reads and advances a generator global to the process. Its effect
  on one call of the functions below is the sequence of values it hands out: the
  parameter \<open>rnd\<close>, whose \<open>k\<close>-th element is what the \<open>k\<close>-th draw returns.
\<close>

type_synonym InsecureRand = "nat \<Rightarrow> uint256"

section \<open>CalculateSeed (lines 32-37)\<close>

definition CalculateSeed :: "host \<Rightarrow> uint256 \<Rightarrow> uint256 \<Rightarrow> uint256" where
  "CalculateSeed h prevBlockHash merkleRoot = Hash256 h (prevBlockHash @ merkleRoot)"

section \<open>GenerateVirtualChallenge (lines 40-66)\<close>

text \<open>
  Line 54, the loop \<open>for i < data.size(): data[i] = prng.next() & 0xFF\<close>, for a vector
  of \<open>k\<close> bytes: one draw per byte, in index order.
\<close>

fun fill_data :: "nat \<Rightarrow> uint64 \<Rightarrow> byte list \<times> uint64" where
  "fill_data 0 prng = ([], prng)"
| "fill_data (Suc k) prng =
     (let (x, prng') = LCG_next prng;
          (rest, prng'') = fill_data k prng'
      in (ucast (x AND 0xFF) # rest, prng''))"

text \<open>
  Lines 46-59, one pass of the loop body up to \<open>MakeTransactionRef\<close>: the transaction
  built from one external draw \<open>rand\<close> and the generator, and the generator afterwards.
  The draws happen in source order (the operands of \<open><<\<close> are sequenced left to right).
\<close>

definition make_virtual_tx :: "host \<Rightarrow> uint256 \<Rightarrow> uint64 \<Rightarrow> CTransaction \<times> uint64" where
  "make_virtual_tx h rand prng =
     (let (x1, prng1) = LCG_next prng;
          (x2, prng2) = LCG_next prng1;
          (x3, prng3) = LCG_next prng2;
          (data, prng4) = fill_data 32 prng3;
          mtx = \<lparr> nVersion = 1,
                  vin = [\<lparr> prevout = \<lparr> outpoint_hash = rand, outpoint_n = x1 mod 100 \<rparr>,
                           scriptSig = push_int64 h (ucast x2) @ push_int64 h (ucast x3) \<rparr>],
                  vout = [\<lparr> nValue = 0, scriptPubKey = OP_RETURN h # push_data h data \<rparr>],
                  nLockTime = 0 \<rparr>
      in (mtx, prng4))"

text \<open>
  The \<open>while (true)\<close> loop. Its state is the vector built so far, the generator, the
  running size and the number of external draws made. The comparison and the addition
  are \<open>size_t\<close> arithmetic. Nothing in the loop bounds the number of passes, so the model
  is a partial function: \<open>None\<close> stands for a loop that never leaves.
\<close>

partial_function (option) gvc_loop ::
  "host \<Rightarrow> size_t \<Rightarrow> InsecureRand \<Rightarrow> CTransaction list \<Rightarrow> uint64 \<Rightarrow> size_t \<Rightarrow> nat
     \<Rightarrow> CTransaction list option" where
  "gvc_loop h maxSize rnd virtualTxs prng currentSize k =
     (let (tx, prng') = make_virtual_tx h (rnd k) prng;
          txSize = GetTotalSize h tx
      in if currentSize + txSize > maxSize then Some virtualTxs
         else gvc_loop h maxSize rnd (virtualTxs @ [tx]) prng' (currentSize + txSize) (Suc k))"

declare gvc_loop.simps [code]

definition GenerateVirtualChallenge ::
  "host \<Rightarrow> uint256 \<Rightarrow> size_t \<Rightarrow> InsecureRand \<Rightarrow> CTransaction list option" where
  "GenerateVirtualChallenge h seed maxSize rnd = gvc_loop h maxSize rnd [] (LCG seed) 0 0"

section \<open>TCCP::ComputeProof (lines 72-83)\<close>

definition ComputeProof ::
  "host \<Rightarrow> uint256 \<Rightarrow> uint256 \<Rightarrow> Params \<Rightarrow> InsecureRand \<Rightarrow> uint256 option" where
  "ComputeProof h prevBlockHash provisionalMerkleRoot params rnd =
     (let seed = CalculateSeed h prevBlockHash provisionalMerkleRoot
      in case GenerateVirtualChallenge h seed (nTCCPChallengeSize params) rnd of
           None \<Rightarrow> None
         | Some v_chal \<Rightarrow>
             if v_chal = [] then Some uint256_zero
             else Some (ComputeMerkleRoot h (map (GetHash h) v_chal)))"

section \<open>TCCP::VerifyBlock (lines 85-118)\<close>

text \<open>
  C++ does not check an index or an iterator: a read outside a vector is undefined
  behaviour. The model makes each such access a checked one that can fail, so that the
  safety of \<open>VerifyBlock\<close> is a statement about its result.
\<close>

datatype error = OutOfBounds | BadBlobLength

fun ebind :: "error + 'a \<Rightarrow> ('a \<Rightarrow> error + 'b) \<Rightarrow> error + 'b" where
  "ebind (Inl e) f = Inl e"
| "ebind (Inr x) f = f x"

text \<open>\<open>v[i]\<close>.\<close>

definition vec_at :: "'a list \<Rightarrow> nat \<Rightarrow> error + 'a" where
  "vec_at v i = (if i < length v then Inr (v ! i) else Inl OutOfBounds)"

text \<open>The range constructor \<open>std::vector(v.begin() + a, v.begin() + b)\<close>.\<close>

definition vec_range :: "'a list \<Rightarrow> nat \<Rightarrow> nat \<Rightarrow> error + 'a list" where
  "vec_range v a b =
     (if a \<le> b \<and> b \<le> length v then Inr (take (b - a) (drop a v)) else Inl OutOfBounds)"

text \<open>\<open>v.erase(v.begin() + i)\<close> for an \<open>int\<close> \<open>i\<close>: the iterator must point at an element.\<close>

definition vec_erase :: "'a list \<Rightarrow> int \<Rightarrow> error + 'a list" where
  "vec_erase v i =
     (if 0 \<le> i \<and> i < int (length v) then Inr (take (nat i) v @ drop (Suc (nat i)) v)
      else Inl OutOfBounds)"

text \<open>The assignment \<open>v[i] = x\<close>.\<close>

definition vec_set :: "'a list \<Rightarrow> nat \<Rightarrow> 'a \<Rightarrow> error + 'a list" where
  "vec_set v i x = (if i < length v then Inr (v[i := x]) else Inl OutOfBounds)"

text \<open>
  Modelled from the spec: the constructor \<open>uint256(const std::vector<unsigned char>&)\<close>
  (uint256.h is not part of the sources at hand). Section 4.5: "On match, bytes 6-37 are
  the decoded Proof": the blob is the 32 bytes of the vector, and a vector of another
  length is no blob.
\<close>

definition uint256_of_vector :: "byte list \<Rightarrow> error + uint256" where
  "uint256_of_vector vch = (if length vch = 32 then Inr vch else Inl BadBlobLength)"

text \<open>
  Lines 94-98, the test applied to one output script: \<open>Inr (Some proof)\<close> when the script
  is a commitment, \<open>Inr None\<close> when it is not. \<open>&&\<close> evaluates its right operand only when
  the left one holds.
\<close>

definition match_commitment :: "host \<Rightarrow> CScript \<Rightarrow> error + uint256 option" where
  "match_commitment h script =
     (if length script \<noteq> 38 then Inr None
      else ebind (vec_at script 0) (\<lambda>b0.
        if b0 \<noteq> OP_RETURN h then Inr None
        else ebind (vec_at script 1) (\<lambda>b1.
          if b1 \<noteq> 0x24 then Inr None
          else ebind (vec_range script 2 (length script)) (\<lambda>data.
            ebind (vec_range data 0 4) (\<lambda>tag.
              if tag \<noteq> TCCP_MAGIC_BYTES h then Inr None
              else ebind (vec_range data 4 (length data)) (\<lambda>bytes.
                ebind (uint256_of_vector bytes) (\<lambda>proof. Inr (Some proof))))))))"

text \<open>
  Lines 92-102, the loop over the coinbase outputs from index \<open>i\<close> on, with the loop
  state \<open>(submittedProof, commitmentOutIndex)\<close>. \<open>commitmentOutIndex\<close> is an \<open>int\<close>:
  the assignment \<open>commitmentOutIndex = i\<close> converts the \<open>size_t\<close> index modulo \<open>2^32\<close>.
  \<open>Inr None\<close> is the \<open>return false\<close> of line 97.
\<close>

fun scan_outputs ::
  "host \<Rightarrow> CTxOut list \<Rightarrow> nat \<Rightarrow> uint256 \<times> 32 word \<Rightarrow> error + (uint256 \<times> 32 word) option" where
  "scan_outputs h [] i st = Inr (Some st)"
| "scan_outputs h (out # outs) i (submittedProof, commitmentOutIndex) =
     ebind (match_commitment h (scriptPubKey out)) (\<lambda>m.
       case m of
         None \<Rightarrow> scan_outputs h outs (Suc i) (submittedProof, commitmentOutIndex)
       | Some proof \<Rightarrow>
           if commitmentOutIndex \<noteq> - 1 then Inr None
           else scan_outputs h outs (Suc i) (proof, word_of_nat i))"

text \<open>
  The function. The outer \<open>option\<close> of the result is \<open>None\<close> when the call never
  returns (the loop of \<open>GenerateVirtualChallenge\<close>); an \<open>Inl\<close> is an access outside a
  vector. The reads \<open>coinbaseTx.vout[i]\<close> of the loop are under its guard
  \<open>i < coinbaseTx.vout.size()\<close>; the scan walks the vector.
\<close>

definition VerifyBlock ::
  "host \<Rightarrow> CBlock \<Rightarrow> CBlockIndex option \<Rightarrow> Params \<Rightarrow> InsecureRand \<Rightarrow> (error + bool) option" where
  "VerifyBlock h block pindexPrev params rnd =
     (case pindexPrev of
        None \<Rightarrow> Some (Inr True)
      | Some prev \<Rightarrow>
          (case vec_at (vtx block) 0 of
             Inl e \<Rightarrow> Some (Inl e)
           | Inr coinbaseTx \<Rightarrow>
               (case scan_outputs h (vout coinbaseTx) 0 (uint256_zero, - 1) of
                  Inl e \<Rightarrow> Some (Inl e)
                | Inr None \<Rightarrow> Some (Inr False)
                | Inr (Some (submittedProof, commitmentOutIndex)) \<Rightarrow>
                    if commitmentOutIndex = - 1 then Some (Inr False)
                    else (case vec_erase (vout coinbaseTx) (sint commitmentOutIndex) of
                            Inl e \<Rightarrow> Some (Inl e)
                          | Inr vout' \<Rightarrow>
                              (let mtx_coinbase = coinbaseTx\<lparr>vout := vout'\<rparr>
                               in case vec_set (vtx block) 0 mtx_coinbase of
                                    Inl e \<Rightarrow> Some (Inl e)
                                  | Inr vtx_temp \<Rightarrow>
                                      (let M_real_reconstructed = BlockMerkleRoot h vtx_temp
                                       in case ComputeProof h (GetBlockHash prev)
                                                 M_real_reconstructed params rnd of
                                            None \<Rightarrow> None
                                          | Some expectedProof \<Rightarrow>
                                              Some (Inr (submittedProof = expectedProof))))))))"

section \<open>The loop of GenerateVirtualChallenge, pass by pass\<close>

text \<open>
  The state of the loop at the start of pass \<open>k\<close> (passes count from 0), read off the
  loop body: the generator after \<open>k\<close> transactions were built from it, the transaction
  that pass \<open>k\<close> builds, the value of \<open>currentSize\<close> when every earlier pass went on
  (a \<open>size_t\<close> sum), and the test of line 61 in pass \<open>k\<close>.
\<close>

fun prng_at :: "host \<Rightarrow> InsecureRand \<Rightarrow> uint64 \<Rightarrow> nat \<Rightarrow> uint64" where
  "prng_at h rnd prng 0 = prng"
| "prng_at h rnd prng (Suc k) = snd (make_virtual_tx h (rnd k) (prng_at h rnd prng k))"

definition synthetic_tx :: "host \<Rightarrow> InsecureRand \<Rightarrow> uint64 \<Rightarrow> nat \<Rightarrow> CTransaction" where
  "synthetic_tx h rnd prng k = fst (make_virtual_tx h (rnd k) (prng_at h rnd prng k))"

fun currentSize_at :: "host \<Rightarrow> InsecureRand \<Rightarrow> uint64 \<Rightarrow> nat \<Rightarrow> size_t" where
  "currentSize_at h rnd prng 0 = 0"
| "currentSize_at h rnd prng (Suc k) =
     currentSize_at h rnd prng k + GetTotalSize h (synthetic_tx h rnd prng k)"

definition breaks_at :: "host \<Rightarrow> size_t \<Rightarrow> InsecureRand \<Rightarrow> uint64 \<Rightarrow> nat \<Rightarrow> bool" where
  "breaks_at h maxSize rnd prng k \<longleftrightarrow>
     currentSize_at h rnd prng k + GetTotalSize h (synthetic_tx h rnd prng k) > maxSize"

text \<open>The mathematical sum of the serialized sizes of a list of transactions.\<close>

definition total_size :: "host \<Rightarrow> CTransaction list \<Rightarrow> nat" where
  "total_size h txs = sum_list (map (\<lambda>tx. unat (GetTotalSize h tx)) txs)"

section \<open>The commitment output\<close>

text \<open>
  Modelled from the spec: the encoder of the commitment (the miner's side; tccp.cpp only
  decodes). Section 4.5: "given a Proof, produce a 38-byte script:
  [no-op marker byte][push-length byte = 0x24][4-byte magic tag][32-byte proof]".
\<close>

definition commitment_script :: "host \<Rightarrow> uint256 \<Rightarrow> CScript" where
  "commitment_script h proof = [OP_RETURN h, 0x24] @ TCCP_MAGIC_BYTES h @ proof"

text \<open>An output script that the scan of \<open>VerifyBlock\<close> takes for a commitment.\<close>

definition is_commitment :: "host \<Rightarrow> CScript \<Rightarrow> bool" where
  "is_commitment h script =
     (case match_commitment h script of Inr (Some proof) \<Rightarrow> True | _ \<Rightarrow> False)"

section \<open>A concrete host\<close>

text \<open>
  An instance of the collaborators on which the functions can be run: the opcode is
  Bitcoin's \<open>OP_RETURN\<close>, the tag spells TCCP, the size is the length of the usual wire
  format with one-byte counts, and small stand-ins take the place of the hash functions.
\<close>

definition xor_blob :: "byte list \<Rightarrow> byte list \<Rightarrow> byte list" where
  "xor_blob a b = map2 (XOR) a b"

definition demo_digest :: "byte list \<Rightarrow> uint256" where
  "demo_digest bs =
     (let padded = bs @ replicate 64 0
      in xor_blob (take 32 padded) (take 32 (drop 32 padded)))"

definition demo_push_int64 :: "64 word \<Rightarrow> CScript" where
  "demo_push_int64 v =
     [0x04, ucast v, ucast (drop_bit 8 v), ucast (drop_bit 16 v), ucast (drop_bit 24 v)]"

definition demo_push_data :: "byte list \<Rightarrow> CScript" where
  "demo_push_data d = word_of_nat (length d) # d"

definition demo_size :: "CTransaction \<Rightarrow> size_t" where
  "demo_size tx =
     word_of_nat (4 + 1 + sum_list (map (\<lambda>i. 36 + 1 + length (scriptSig i) + 4) (vin tx))
                  + 1 + sum_list (map (\<lambda>out. 8 + 1 + length (scriptPubKey out)) (vout tx)) + 4)"

definition demo_txid :: "CTransaction \<Rightarrow> uint256" where
  "demo_txid tx =
     demo_digest (concat (map (\<lambda>i. outpoint_hash (prevout i) @ scriptSig i) (vin tx))
                  @ concat (map scriptPubKey (vout tx)))"

definition demo_merkle :: "uint256 list \<Rightarrow> uint256" where
  "demo_merkle leaves = foldr (\<lambda>leaf acc. xor_blob leaf (rotate1 acc)) leaves uint256_zero"

definition demo_host :: host where
  "demo_host =
     \<lparr> OP_RETURN = 0x6a,
       TCCP_MAGIC_BYTES = [0x54, 0x43, 0x43, 0x50],
       Hash256 = demo_digest,
       push_int64 = demo_push_int64,
       push_data = demo_push_data,
       GetTotalSize = demo_size,
       GetHash = demo_txid,
       ComputeMerkleRoot = demo_merkle,
       BlockMerkleRoot = (\<lambda>vtx. demo_merkle (map demo_txid vtx)) \<rparr>"

text \<open>The inputs of the example of section 8 of the specification.\<close>

definition demo_prevHash :: uint256 where
  "demo_prevHash = 1 # replicate 31 0"

definition demo_realRoot :: uint256 where
  "demo_realRoot = 2 # replicate 31 0"

definition demo_seed :: uint256 where
  "demo_seed = CalculateSeed demo_host demo_prevHash demo_realRoot"

text \<open>An external generator that hands out the zero blob at every draw.\<close>

definition demo_rnd :: InsecureRand where
  "demo_rnd = (\<lambda>k. uint256_zero)"

text \<open>A coinbase with one ordinary output, a commitment output and a parent block.\<close>

definition demo_coinbase :: CTransaction where
  "demo_coinbase =
     \<lparr> nVersion = 1,
       vin = [\<lparr> prevout = \<lparr> outpoint_hash = uint256_zero, outpoint_n = 0xFFFFFFFF \<rparr>,
                scriptSig = [0x51] \<rparr>],
       vout = [\<lparr> nValue = 5000000000, scriptPubKey = [0x76, 0xA9] \<rparr>],
       nLockTime = 0 \<rparr>"

definition demo_commitment :: "uint256 \<Rightarrow> CTxOut" where
  "demo_commitment proof = \<lparr> nValue = 0, scriptPubKey = commitment_script demo_host proof \<rparr>"

definition demo_parent :: CBlockIndex where
  "demo_parent = \<lparr> GetBlockHash = demo_prevHash \<rparr>"

section \<open>The generator\<close>

lemma unat_high_half:
  "unat (ucast (drop_bit 32 x) :: 32 word) = unat x div 2 ^ 32" for x :: "64 word"
proof -
  have lt: "unat x div 2 ^ 32 < 2 ^ 32"
    using unsigned_less [of x, where 'a=nat] by (simp add: less_mult_imp_div_less)
  have "unat (drop_bit 32 x) = unat x div 2 ^ 32"
    unfolding unat_drop_bit_eq by (simp only: drop_bit_eq_div)
  moreover have "unat (ucast (drop_bit 32 x) :: 32 word) = take_bit 32 (unat (drop_bit 32 x))"
    by (simp add: unsigned_ucast_eq)
  ultimately show ?thesis
    using lt by (simp only: take_bit_nat_eq_self_iff)
qed

text \<open>
  C8. One call of \<open>next()\<close> on state \<open>s\<close> leaves the state
  \<open>(1664525 * s + 1013904223) mod 2^64\<close> and returns the upper 32 bits of that new state
  (the new state divided by \<open>2^32\<close>). A generator built from a seed whose low 64 bits
  are 1 has state 1, and its first output is \<open>(1664525 * 1 + 1013904223) >> 32\<close>,
  which is 0.
\<close>

theorem LCG_next_recurrence:
  "unat (snd (LCG_next s)) = (1664525 * unat s + 1013904223) mod 2 ^ 64
   \<and> unat (fst (LCG_next s)) = unat (snd (LCG_next s)) div 2 ^ 32
   \<and> LCG (1 # replicate 31 0) = 1
   \<and> unat (fst (LCG_next (LCG (1 # replicate 31 0)))) = (1664525 * 1 + 1013904223) div 2 ^ 32
   \<and> fst (LCG_next (LCG (1 # replicate 31 0))) = 0"
proof -
  have state: "unat (snd (LCG_next s)) = (1664525 * unat s + 1013904223) mod 2 ^ 64"
    by (simp add: LCG_next_def Let_def unat_word_ariths mod_simps)
  have out: "unat (fst (LCG_next s)) = unat (snd (LCG_next s)) div 2 ^ 32"
    unfolding LCG_next_def Let_def fst_conv snd_conv by (rule unat_high_half)
  have init: "LCG (1 # replicate 31 0) = 1"
    by (simp add: LCG_def bit_cast_uint64_def eval_nat_numeral)
  have first: "fst (LCG_next 1) = 0"
    by (simp add: LCG_next_def Let_def)
  show ?thesis
    using state out init first by simp
qed

section \<open>The loop of the challenge builder\<close>

text \<open>
  One pass of the loop from the state that pass \<open>k\<close> starts in, a run of \<open>n\<close> passes
  that all go on, and the result when pass \<open>n\<close> is the first to break.
\<close>

lemma gvc_loop_pass:
  "gvc_loop h M rnd txs (prng_at h rnd p k) (currentSize_at h rnd p k) k =
     (if breaks_at h M rnd p k then Some txs
      else gvc_loop h M rnd (txs @ [synthetic_tx h rnd p k]) (prng_at h rnd p (Suc k))
             (currentSize_at h rnd p (Suc k)) (Suc k))"
  by (subst gvc_loop.simps)
     (simp add: synthetic_tx_def breaks_at_def Let_def split: prod.split)

lemma gvc_loop_run:
  "(\<And>j. j < n \<Longrightarrow> \<not> breaks_at h M rnd p j) \<Longrightarrow>
   gvc_loop h M rnd [] p 0 0 =
   gvc_loop h M rnd (map (synthetic_tx h rnd p) [0..<n]) (prng_at h rnd p n)
     (currentSize_at h rnd p n) n"
proof (induction n)
  case 0
  show ?case by simp
next
  case (Suc n)
  have "gvc_loop h M rnd [] p 0 0 =
        gvc_loop h M rnd (map (synthetic_tx h rnd p) [0..<n]) (prng_at h rnd p n)
          (currentSize_at h rnd p n) n"
    using Suc by simp
  also have "\<dots> = gvc_loop h M rnd (map (synthetic_tx h rnd p) [0..<Suc n])
          (prng_at h rnd p (Suc n)) (currentSize_at h rnd p (Suc n)) (Suc n)"
    using Suc.prems [of n] by (subst gvc_loop_pass) simp
  finally show ?case .
qed

lemma gvc_loop_breaks:
  assumes "breaks_at h M rnd p n" and "\<And>j. j < n \<Longrightarrow> \<not> breaks_at h M rnd p j"
  shows "gvc_loop h M rnd [] p 0 0 = Some (map (synthetic_tx h rnd p) [0..<n])"
proof -
  have "gvc_loop h M rnd [] p 0 0 =
        gvc_loop h M rnd (map (synthetic_tx h rnd p) [0..<n]) (prng_at h rnd p n)
          (currentSize_at h rnd p n) n"
    using assms(2) by (rule gvc_loop_run)
  also have "\<dots> = Some (map (synthetic_tx h rnd p) [0..<n])"
    using assms(1) by (subst gvc_loop_pass) simp
  finally show ?thesis .
qed


lemma gvc_loop_Some:
  assumes "gvc_loop h M rnd txs prng cur k = Some res"
  shows "\<forall>p. prng = prng_at h rnd p k \<longrightarrow> cur = currentSize_at h rnd p k \<longrightarrow>
   (\<exists>n\<ge>k. breaks_at h M rnd p n \<and> (\<forall>j. k \<le> j \<and> j < n \<longrightarrow> \<not> breaks_at h M rnd p j)
       \<and> res = txs @ map (synthetic_tx h rnd p) [k..<n])"
proof (rule gvc_loop.raw_induct [where P = "\<lambda>h M rnd txs prng cur k res.
   \<forall>p. prng = prng_at h rnd p k \<longrightarrow> cur = currentSize_at h rnd p k \<longrightarrow>
   (\<exists>n\<ge>k. breaks_at h M rnd p n \<and> (\<forall>j. k \<le> j \<and> j < n \<longrightarrow> \<not> breaks_at h M rnd p j)
       \<and> res = txs @ map (synthetic_tx h rnd p) [k..<n])", OF _ assms], intro allI impI)
  fix loop h M rnd txs prng cur k res p
  assume IH: "\<And>h M rnd txs prng cur k res. loop h M rnd txs prng cur k = Some res \<Longrightarrow>
    \<forall>p. prng = prng_at h rnd p k \<longrightarrow> cur = currentSize_at h rnd p k \<longrightarrow>
   (\<exists>n\<ge>k. breaks_at h M rnd p n \<and> (\<forall>j. k \<le> j \<and> j < n \<longrightarrow> \<not> breaks_at h M rnd p j)
       \<and> res = txs @ map (synthetic_tx h rnd p) [k..<n])"
  and body: "(let (tx, prng') = make_virtual_tx h (rnd k) prng;
          txSize = GetTotalSize h tx
      in if M < cur + txSize then Some txs
         else loop h M rnd (txs @ [tx]) prng' (cur + txSize) (Suc k)) = Some res"
  and prng: "prng = prng_at h rnd p k" and cur: "cur = currentSize_at h rnd p k"
  have body': "(if breaks_at h M rnd p k then Some txs
      else loop h M rnd (txs @ [synthetic_tx h rnd p k]) (prng_at h rnd p (Suc k))
             (currentSize_at h rnd p (Suc k)) (Suc k)) = Some res"
    using body unfolding prng cur
    by (auto simp add: synthetic_tx_def breaks_at_def Let_def split: prod.splits if_splits)
  show "\<exists>n\<ge>k. breaks_at h M rnd p n \<and> (\<forall>j. k \<le> j \<and> j < n \<longrightarrow> \<not> breaks_at h M rnd p j)
       \<and> res = txs @ map (synthetic_tx h rnd p) [k..<n]"
  proof (cases "breaks_at h M rnd p k")
    case True
    with body' have "res = txs" by simp
    with True show ?thesis by (intro exI [of _ k]) auto
  next
    case False
    with body' have run: "loop h M rnd (txs @ [synthetic_tx h rnd p k]) (prng_at h rnd p (Suc k))
        (currentSize_at h rnd p (Suc k)) (Suc k) = Some res"
      by simp
    from IH [OF run, rule_format, of p] obtain n where n: "Suc k \<le> n" "breaks_at h M rnd p n"
      "\<forall>j. Suc k \<le> j \<and> j < n \<longrightarrow> \<not> breaks_at h M rnd p j"
      "res = (txs @ [synthetic_tx h rnd p k]) @ map (synthetic_tx h rnd p) [Suc k..<n]"
      by blast
    have "\<not> breaks_at h M rnd p j" if "k \<le> j \<and> j < n" for j
      using n(3) False that by (cases "j = k") auto
    moreover have "res = txs @ map (synthetic_tx h rnd p) [k..<n]"
      using n(1,4) by (simp add: upt_conv_Cons)
    ultimately show ?thesis using n(1,2) by (intro exI [of _ n]) simp
  qed
qed

text \<open>
  While no pass has broken and no sum leaves the range of \<open>size_t\<close>, \<open>currentSize\<close> is
  the mathematical sum of the accepted sizes and the test of line 61 compares that sum.
\<close>

lemma currentSize_no_overflow:
  assumes fit: "\<And>j. j < n \<Longrightarrow> unat (GetTotalSize h (synthetic_tx h rnd p j)) + unat M < 2 ^ 64"
    and go: "\<And>j. j < n \<Longrightarrow> \<not> breaks_at h M rnd p j"
  shows "unat (currentSize_at h rnd p n) = total_size h (map (synthetic_tx h rnd p) [0..<n])
         \<and> unat (currentSize_at h rnd p n) \<le> unat M"
  using assms
proof (induction n)
  case 0
  show ?case by (simp add: total_size_def)
next
  case (Suc n)
  let ?cur = "currentSize_at h rnd p n" and ?sz = "GetTotalSize h (synthetic_tx h rnd p n)"
  have IH: "unat ?cur = total_size h (map (synthetic_tx h rnd p) [0..<n])" "unat ?cur \<le> unat M"
    using Suc.IH Suc.prems by simp_all
  have "unat ?sz + unat M < 2 ^ 64" using Suc.prems(1) [of n] by simp
  with IH(2) have "unat ?cur + unat ?sz < 2 ^ 64" by simp
  hence sum: "unat (?cur + ?sz) = unat ?cur + unat ?sz"
    by (simp add: unat_add_lem [THEN iffD1])
  have "?cur + ?sz \<le> M"
    using Suc.prems(2) [of n] by (simp add: breaks_at_def not_less)
  hence "unat (?cur + ?sz) \<le> unat M" by (simp add: word_le_nat_alt)
  with sum IH(1) show ?case by (simp add: total_size_def)
qed

lemma breaks_no_overflow:
  assumes fit: "\<And>j. j \<le> n \<Longrightarrow> unat (GetTotalSize h (synthetic_tx h rnd p j)) + unat M < 2 ^ 64"
    and go: "\<And>j. j < n \<Longrightarrow> \<not> breaks_at h M rnd p j"
  shows "breaks_at h M rnd p n \<longleftrightarrow>
         unat M < total_size h (map (synthetic_tx h rnd p) [0..<n])
                  + unat (GetTotalSize h (synthetic_tx h rnd p n))"
proof -
  let ?cur = "currentSize_at h rnd p n" and ?sz = "GetTotalSize h (synthetic_tx h rnd p n)"
  have cur: "unat ?cur = total_size h (map (synthetic_tx h rnd p) [0..<n])" "unat ?cur \<le> unat M"
    using currentSize_no_overflow [of n h rnd p M] fit go by simp_all
  have "unat ?sz + unat M < 2 ^ 64" using fit [of n] by simp
  with cur(2) have "unat ?cur + unat ?sz < 2 ^ 64" by simp
  hence "unat (?cur + ?sz) = unat ?cur + unat ?sz"
    by (simp add: unat_add_lem [THEN iffD1])
  thus ?thesis
    by (simp add: breaks_at_def word_less_nat_alt cur(1))
qed

lemma GenerateVirtualChallenge_Some:
  assumes "GenerateVirtualChallenge h seed M rnd = Some txs"
  shows "breaks_at h M rnd (LCG seed) (length txs)
         \<and> (\<forall>j < length txs. \<not> breaks_at h M rnd (LCG seed) j)
         \<and> txs = map (synthetic_tx h rnd (LCG seed)) [0..<length txs]"
proof -
  from assms have "gvc_loop h M rnd [] (LCG seed) 0 0 = Some txs"
    by (simp add: GenerateVirtualChallenge_def)
  from gvc_loop_Some [OF this, rule_format, of "LCG seed"]
  obtain n where n: "breaks_at h M rnd (LCG seed) n"
      "\<forall>j. 0 \<le> j \<and> j < n \<longrightarrow> \<not> breaks_at h M rnd (LCG seed) j"
      "txs = [] @ map (synthetic_tx h rnd (LCG seed)) [0..<n]"
    by auto
  from n(3) have "length txs = n" by simp
  with n show ?thesis by simp
qed

lemma GenerateVirtualChallenge_breaks:
  assumes "breaks_at h M rnd (LCG seed) n" and "\<And>j. j < n \<Longrightarrow> \<not> breaks_at h M rnd (LCG seed) j"
  shows "GenerateVirtualChallenge h seed M rnd = Some (map (synthetic_tx h rnd (LCG seed)) [0..<n])"
  unfolding GenerateVirtualChallenge_def using assms by (rule gvc_loop_breaks)

lemma total_size_ge_length:
  "(\<And>tx. tx \<in> set txs \<Longrightarrow> 0 < unat (GetTotalSize h tx)) \<Longrightarrow> length txs \<le> total_size h txs"
proof (induction txs)
  case Nil
  show ?case by (simp add: total_size_def)
next
  case (Cons tx txs)
  have "0 < unat (GetTotalSize h tx)" using Cons.prems by simp
  moreover have "length txs \<le> total_size h txs" using Cons by simp
  ultimately show ?case by (simp add: total_size_def)
qed

lemma first_break_exists:
  assumes pos: "\<And>k. 0 < unat (GetTotalSize h (synthetic_tx h rnd p k))"
    and fit: "\<And>k. unat (GetTotalSize h (synthetic_tx h rnd p k)) + unat M < 2 ^ 64"
  shows "\<exists>n \<le> unat M. breaks_at h M rnd p n \<and> (\<forall>j < n. \<not> breaks_at h M rnd p j)"
proof -
  have ex: "\<exists>j \<le> unat M. breaks_at h M rnd p j"
  proof (rule ccontr)
    assume "\<not> ?thesis"
    hence go: "\<And>j. j < Suc (unat M) \<Longrightarrow> \<not> breaks_at h M rnd p j" by auto
    let ?txs = "map (synthetic_tx h rnd p) [0..<Suc (unat M)]"
    have "unat (currentSize_at h rnd p (Suc (unat M))) = total_size h ?txs
          \<and> unat (currentSize_at h rnd p (Suc (unat M))) \<le> unat M"
      by (rule currentSize_no_overflow) (use fit go in auto)
    hence "total_size h ?txs \<le> unat M" by simp
    moreover have "length ?txs \<le> total_size h ?txs"
      by (rule total_size_ge_length) (use pos in auto)
    ultimately show False by simp
  qed
  define n where "n = (LEAST j. breaks_at h M rnd p j)"
  from ex obtain j where j: "j \<le> unat M" "breaks_at h M rnd p j" by blast
  have "breaks_at h M rnd p n" unfolding n_def using j(2) by (rule LeastI)
  moreover have "n \<le> unat M"
    using Least_le [of "breaks_at h M rnd p" j] j unfolding n_def by simp
  moreover have "\<forall>i < n. \<not> breaks_at h M rnd p i"
    unfolding n_def using not_less_Least by blast
  ultimately show ?thesis by blast
qed

lemma never_breaks_at_SIZE_MAX: "\<not> breaks_at h (- 1) rnd p k"
  by (simp add: breaks_at_def)

lemma GenerateVirtualChallenge_SIZE_MAX:
  "GenerateVirtualChallenge h seed (- 1) rnd = None"
proof (cases "GenerateVirtualChallenge h seed (- 1) rnd")
  case None
  thus ?thesis .
next
  case (Some txs)
  from GenerateVirtualChallenge_Some [OF this] have "breaks_at h (- 1) rnd (LCG seed) (length txs)"
    by simp
  thus ?thesis by (simp add: never_breaks_at_SIZE_MAX)
qed

lemma length_fill_data: "length (fst (fill_data n s)) = n"
  by (induction n arbitrary: s) (simp_all add: Let_def case_prod_beta)

lemma demo_synthetic_size:
  "GetTotalSize demo_host (fst (make_virtual_tx demo_host x s)) = 104"
  by (simp add: make_virtual_tx_def demo_host_def demo_size_def demo_push_int64_def
      demo_push_data_def Let_def case_prod_beta length_fill_data)

lemma demo_currentSize_at: "currentSize_at demo_host rnd p k = word_of_nat (104 * k)"
  by (induction k) (simp_all add: synthetic_tx_def demo_synthetic_size)

lemma demo_breaks_at:
  "breaks_at demo_host M rnd p k \<longleftrightarrow> M < word_of_nat (104 * k) + 104"
  by (simp add: breaks_at_def demo_currentSize_at synthetic_tx_def demo_synthetic_size)

subsection \<open>The concrete host\<close>

lemma demo_GenerateVirtualChallenge_500:
  "GenerateVirtualChallenge demo_host demo_seed 500 demo_rnd
   = Some (map (synthetic_tx demo_host demo_rnd (LCG demo_seed)) [0..<4])"
proof (rule GenerateVirtualChallenge_breaks)
  show "breaks_at demo_host 500 demo_rnd (LCG demo_seed) 4"
    by (simp add: demo_breaks_at)
next
  fix j :: nat
  assume "j < 4"
  hence "j = 0 \<or> j = 1 \<or> j = 2 \<or> j = 3" by arith
  thus "\<not> breaks_at demo_host 500 demo_rnd (LCG demo_seed) j"
    by (auto simp add: demo_breaks_at)
qed

subsection \<open>The size budget\<close>

text \<open>
  C4. When the builder returns, for a \<open>maxSize\<close> that is valid in that adding the size of
  a synthetic transaction to it stays within \<open>size_t\<close>: the returned vector is exactly
  the transactions of the passes before the breaking one, whole and in generation order;
  the sum of their serialized sizes is at most \<open>maxSize\<close>; and that sum plus the size of
  the transaction of the breaking pass (the rejected one, which is not in the vector)
  exceeds \<open>maxSize\<close>.
\<close>

theorem challenge_size_budget:
  assumes ret: "GenerateVirtualChallenge h seed maxSize rnd = Some txs"
    and fit: "\<forall>k \<le> length txs.
        unat (GetTotalSize h (synthetic_tx h rnd (LCG seed) k)) + unat maxSize < 2 ^ 64"
  shows "txs = map (synthetic_tx h rnd (LCG seed)) [0..<length txs]
       \<and> total_size h txs \<le> unat maxSize
       \<and> unat maxSize < total_size h txs
            + unat (GetTotalSize h (synthetic_tx h rnd (LCG seed) (length txs)))"
proof -
  let ?n = "length txs" and ?p = "LCG seed"
  note S = GenerateVirtualChallenge_Some [OF ret]
  have txs: "txs = map (synthetic_tx h rnd ?p) [0..<?n]" using S by simp
  have go: "\<And>j. j < ?n \<Longrightarrow> \<not> breaks_at h maxSize rnd ?p j" using S by simp
  have fit': "\<And>j. j \<le> ?n \<Longrightarrow>
      unat (GetTotalSize h (synthetic_tx h rnd ?p j)) + unat maxSize < 2 ^ 64"
    using fit by simp
  have "unat (currentSize_at h rnd ?p ?n) = total_size h (map (synthetic_tx h rnd ?p) [0..<?n])
        \<and> unat (currentSize_at h rnd ?p ?n) \<le> unat maxSize"
    by (rule currentSize_no_overflow) (use fit' go in auto)
  hence le: "total_size h txs \<le> unat maxSize" using txs by simp
  have "breaks_at h maxSize rnd ?p ?n" using S by simp
  hence "unat maxSize < total_size h (map (synthetic_tx h rnd ?p) [0..<?n])
                  + unat (GetTotalSize h (synthetic_tx h rnd ?p ?n))"
    using breaks_no_overflow [of ?n h rnd ?p maxSize] fit' go by blast
  hence gt: "unat maxSize < total_size h txs + unat (GetTotalSize h (synthetic_tx h rnd ?p ?n))"
    using txs by simp
  from txs le gt show ?thesis by blast
qed

theorem challenge_size_budget_witness:
  "GenerateVirtualChallenge demo_host demo_seed 500 demo_rnd
     = Some (map (synthetic_tx demo_host demo_rnd (LCG demo_seed)) [0..<4])
   \<and> total_size demo_host (map (synthetic_tx demo_host demo_rnd (LCG demo_seed)) [0..<4]) \<le> 500
   \<and> 500 < total_size demo_host (map (synthetic_tx demo_host demo_rnd (LCG demo_seed)) [0..<4])
            + unat (GetTotalSize demo_host (synthetic_tx demo_host demo_rnd (LCG demo_seed) 4))"
proof -
  note ret = demo_GenerateVirtualChallenge_500
  have fit: "\<forall>k \<le> length (map (synthetic_tx demo_host demo_rnd (LCG demo_seed)) [0..<4]).
      unat (GetTotalSize demo_host (synthetic_tx demo_host demo_rnd (LCG demo_seed) k))
        + unat (500 :: size_t) < 2 ^ 64"
    by (simp add: synthetic_tx_def demo_synthetic_size)
  from challenge_size_budget [OF ret fit] ret show ?thesis by simp
qed

subsection \<open>Termination\<close>

text \<open>
  C9, as amended. When every synthetic transaction has a positive serialized size and
  \<open>maxSize\<close> plus the size of a synthetic transaction stays within \<open>size_t\<close>, the loop
  leaves, after at most \<open>maxSize\<close> accepted transactions.
\<close>

theorem challenge_loop_terminates:
  assumes pos: "\<forall>k. 0 < unat (GetTotalSize h (synthetic_tx h rnd (LCG seed) k))"
    and fit: "\<forall>k. unat (GetTotalSize h (synthetic_tx h rnd (LCG seed) k)) + unat maxSize < 2 ^ 64"
  shows "\<exists>txs. GenerateVirtualChallenge h seed maxSize rnd = Some txs \<and> length txs \<le> unat maxSize"
proof -
  from first_break_exists [of h rnd "LCG seed" maxSize] pos fit
  obtain n where n: "n \<le> unat maxSize" "breaks_at h maxSize rnd (LCG seed) n"
    "\<forall>j < n. \<not> breaks_at h maxSize rnd (LCG seed) j"
    by blast
  have "GenerateVirtualChallenge h seed maxSize rnd
        = Some (map (synthetic_tx h rnd (LCG seed)) [0..<n])"
    by (rule GenerateVirtualChallenge_breaks) (use n in auto)
  with n(1) show ?thesis by simp
qed

theorem challenge_loop_terminates_witness:
  "\<exists>txs. GenerateVirtualChallenge demo_host demo_seed 500 demo_rnd = Some txs
         \<and> length txs \<le> unat (500 :: size_t)"
proof -
  have pos: "\<forall>k. 0 < unat (GetTotalSize demo_host (synthetic_tx demo_host demo_rnd (LCG demo_seed) k))"
    by (simp add: synthetic_tx_def demo_synthetic_size)
  have fit: "\<forall>k. unat (GetTotalSize demo_host (synthetic_tx demo_host demo_rnd (LCG demo_seed) k))
        + unat (500 :: size_t) < 2 ^ 64"
    by (simp add: synthetic_tx_def demo_synthetic_size)
  from challenge_loop_terminates [OF pos fit] show ?thesis .
qed

text \<open>
  C9 as stated fails: on the concrete host every synthetic transaction has size 104, and
  with \<open>maxSize = SIZE_MAX\<close> the test \<open>currentSize + txSize > maxSize\<close> of line 61 is
  never true, so the loop never leaves.
\<close>

theorem challenge_loop_SIZE_MAX_diverges:
  "(\<forall>k. unat (GetTotalSize demo_host (synthetic_tx demo_host demo_rnd (LCG demo_seed) k)) = 104)
   \<and> GenerateVirtualChallenge demo_host demo_seed 18446744073709551615 demo_rnd = None"
proof -
  have "(18446744073709551615 :: size_t) = - 1" by simp
  thus ?thesis
    by (simp only: GenerateVirtualChallenge_SIZE_MAX)
       (simp add: synthetic_tx_def demo_synthetic_size)
qed

subsection \<open>The empty challenge\<close>

lemma make_virtual_tx_ComputeMerkleRoot [simp]:
  "make_virtual_tx (h\<lparr>ComputeMerkleRoot := f\<rparr>) = make_virtual_tx h"
  by (simp add: make_virtual_tx_def fun_eq_iff)

lemma GenerateVirtualChallenge_empty:
  "GenerateVirtualChallenge h seed M rnd = Some [] \<longleftrightarrow> breaks_at h M rnd (LCG seed) 0"
proof
  assume "GenerateVirtualChallenge h seed M rnd = Some []"
  from GenerateVirtualChallenge_Some [OF this] show "breaks_at h M rnd (LCG seed) 0" by simp
next
  assume "breaks_at h M rnd (LCG seed) 0"
  from GenerateVirtualChallenge_breaks [of h M rnd seed 0, OF this]
  show "GenerateVirtualChallenge h seed M rnd = Some []" by simp
qed

lemma breaks_at_0:
  "breaks_at h M rnd p 0 \<longleftrightarrow> M < GetTotalSize h (fst (make_virtual_tx h (rnd 0) p))"
  by (simp add: breaks_at_def synthetic_tx_def)

text \<open>
  C6. When the generated challenge set is empty, \<open>ComputeProof\<close> returns the all-zero
  32-byte value, and it does so whatever function stands for \<open>ComputeMerkleRoot\<close>: the
  collaborator is not consulted. The set is empty in particular when \<open>maxSize\<close> is
  smaller than the size of every synthetic transaction.
\<close>

theorem empty_challenge_zero_proof:
  "(GenerateVirtualChallenge h (CalculateSeed h prevBlockHash root) (nTCCPChallengeSize params) rnd
      = Some []
    \<longrightarrow> (\<forall>f. ComputeProof (h\<lparr>ComputeMerkleRoot := f\<rparr>) prevBlockHash root params rnd
              = Some (replicate 32 0)))
   \<and> ((\<forall>x s. nTCCPChallengeSize params < GetTotalSize h (fst (make_virtual_tx h x s)))
    \<longrightarrow> GenerateVirtualChallenge h (CalculateSeed h prevBlockHash root)
          (nTCCPChallengeSize params) rnd = Some [])"
proof (intro conjI impI allI)
  fix f
  let ?h = "h\<lparr>ComputeMerkleRoot := f\<rparr>"
  assume "GenerateVirtualChallenge h (CalculateSeed h prevBlockHash root)
            (nTCCPChallengeSize params) rnd = Some []"
  hence "breaks_at h (nTCCPChallengeSize params) rnd (LCG (CalculateSeed h prevBlockHash root)) 0"
    by (simp only: GenerateVirtualChallenge_empty)
  hence "breaks_at ?h (nTCCPChallengeSize params) rnd (LCG (CalculateSeed ?h prevBlockHash root)) 0"
    by (simp add: breaks_at_0 CalculateSeed_def)
  hence "GenerateVirtualChallenge ?h (CalculateSeed ?h prevBlockHash root)
            (nTCCPChallengeSize params) rnd = Some []"
    by (simp only: GenerateVirtualChallenge_empty)
  thus "ComputeProof ?h prevBlockHash root params rnd = Some (replicate 32 0)"
    by (simp add: ComputeProof_def uint256_zero_def)
next
  assume "\<forall>x s. nTCCPChallengeSize params < GetTotalSize h (fst (make_virtual_tx h x s))"
  hence "breaks_at h (nTCCPChallengeSize params) rnd (LCG (CalculateSeed h prevBlockHash root)) 0"
    by (simp add: breaks_at_0)
  thus "GenerateVirtualChallenge h (CalculateSeed h prevBlockHash root)
          (nTCCPChallengeSize params) rnd = Some []"
    by (simp only: GenerateVirtualChallenge_empty)
qed

theorem empty_challenge_zero_proof_witness:
  "GenerateVirtualChallenge demo_host (CalculateSeed demo_host demo_prevHash demo_realRoot)
      (nTCCPChallengeSize \<lparr>nTCCPChallengeSize = 103\<rparr>) demo_rnd = Some []
   \<and> ComputeProof demo_host demo_prevHash demo_realRoot \<lparr>nTCCPChallengeSize = 103\<rparr> demo_rnd
      = Some (replicate 32 0)
   \<and> ComputeProof (demo_host\<lparr>ComputeMerkleRoot := (\<lambda>leaves. [])\<rparr>) demo_prevHash demo_realRoot
        \<lparr>nTCCPChallengeSize = 103\<rparr> demo_rnd
      = Some (replicate 32 0)"
proof -
  let ?params = "\<lparr>nTCCPChallengeSize = 103\<rparr>"
  note T = empty_challenge_zero_proof [of demo_host demo_prevHash demo_realRoot ?params demo_rnd]
  have small: "\<forall>x s. nTCCPChallengeSize ?params
      < GetTotalSize demo_host (fst (make_virtual_tx demo_host x s))"
    by (simp add: demo_synthetic_size)
  from T small have empty: "GenerateVirtualChallenge demo_host
      (CalculateSeed demo_host demo_prevHash demo_realRoot) (nTCCPChallengeSize ?params) demo_rnd
      = Some []"
    by blast
  with T have all: "\<forall>f. ComputeProof (demo_host\<lparr>ComputeMerkleRoot := f\<rparr>) demo_prevHash
      demo_realRoot ?params demo_rnd = Some (replicate 32 0)"
    by blast
  from all [rule_format, of "ComputeMerkleRoot demo_host"] all [rule_format, of "\<lambda>leaves. []"] empty
  show ?thesis by simp
qed

section \<open>Dependence on the external generator\<close>

text \<open>
  On the concrete host a size limit of 150 admits exactly one synthetic transaction, and
  the first byte of the proof is the first byte of the external draw, xor 4.
\<close>

lemma demo_GenerateVirtualChallenge_150:
  "GenerateVirtualChallenge demo_host seed 150 rnd
   = Some [fst (make_virtual_tx demo_host (rnd 0) (LCG seed))]"
proof -
  have "GenerateVirtualChallenge demo_host seed 150 rnd
        = Some (map (synthetic_tx demo_host rnd (LCG seed)) [0..<1])"
  proof (rule GenerateVirtualChallenge_breaks)
    show "breaks_at demo_host 150 rnd (LCG seed) 1"
      by (simp add: demo_breaks_at)
  next
    fix j :: nat
    assume "j < 1"
    thus "\<not> breaks_at demo_host 150 rnd (LCG seed) j"
      by (simp add: demo_breaks_at)
  qed
  thus ?thesis by (simp add: synthetic_tx_def)
qed

lemma demo_ComputeProof_150:
  "ComputeProof demo_host prevBlockHash root \<lparr>nTCCPChallengeSize = 150\<rparr> rnd
   = Some (demo_merkle [demo_txid (fst (make_virtual_tx demo_host (rnd 0)
        (LCG (demo_digest (prevBlockHash @ root)))))])"
  by (simp add: ComputeProof_def demo_GenerateVirtualChallenge_150 CalculateSeed_def)
     (simp add: demo_host_def)

lemma hd_map2_replicate: "hd (map2 f (x # xs) (replicate (numeral n) y)) = f x y"
  by (simp add: numeral_eq_Suc)

lemma hd_demo_proof:
  "hd (demo_merkle [demo_txid (fst (make_virtual_tx demo_host (b # replicate 31 0) s))]) = b XOR 4"
  by (simp add: demo_merkle_def demo_txid_def demo_digest_def xor_blob_def make_virtual_tx_def
      case_prod_beta demo_host_def demo_push_int64_def demo_push_data_def uint256_zero_def
      hd_map2_replicate)

text \<open>
  C1. \<open>ComputeProof\<close> is not a function of \<open>prevBlockHash\<close>, \<open>provisionalMerkleRoot\<close>
  and the size limit alone: line 50 puts the value of \<open>InsecureRand256()\<close> into every
  synthetic transaction, and with the same three inputs two different draws give two
  different proofs.
\<close>

theorem ComputeProof_depends_on_InsecureRand256:
  "ComputeProof demo_host demo_prevHash demo_realRoot \<lparr>nTCCPChallengeSize = 150\<rparr>
     (\<lambda>k. 0 # replicate 31 0)
   \<noteq> ComputeProof demo_host demo_prevHash demo_realRoot \<lparr>nTCCPChallengeSize = 150\<rparr>
     (\<lambda>k. 1 # replicate 31 0)"
proof
  let ?s = "LCG (demo_digest (demo_prevHash @ demo_realRoot))"
  assume "ComputeProof demo_host demo_prevHash demo_realRoot \<lparr>nTCCPChallengeSize = 150\<rparr>
     (\<lambda>k. 0 # replicate 31 0)
   = ComputeProof demo_host demo_prevHash demo_realRoot \<lparr>nTCCPChallengeSize = 150\<rparr>
     (\<lambda>k. 1 # replicate 31 0)"
  hence "demo_merkle [demo_txid (fst (make_virtual_tx demo_host (0 # replicate 31 0) ?s))]
       = demo_merkle [demo_txid (fst (make_virtual_tx demo_host (1 # replicate 31 0) ?s))]"
    by (simp only: demo_ComputeProof_150 option.inject)
  hence "hd (demo_merkle [demo_txid (fst (make_virtual_tx demo_host (0 # replicate 31 0) ?s))])
       = hd (demo_merkle [demo_txid (fst (make_virtual_tx demo_host (1 # replicate 31 0) ?s))])"
    by (rule arg_cong)
  thus False by (simp only: hd_demo_proof) simp
qed

section \<open>The commitment scan\<close>

lemma match_commitment_eq:
  "match_commitment h s =
     (if length s = 38 \<and> s ! 0 = OP_RETURN h \<and> s ! 1 = 0x24
         \<and> take 4 (drop 2 s) = TCCP_MAGIC_BYTES h
      then Inr (Some (take 32 (drop 6 s))) else Inr None)"
  by (simp add: match_commitment_def vec_at_def vec_range_def uint256_of_vector_def)

lemma is_commitment_iff:
  "is_commitment h s \<longleftrightarrow>
     length s = 38 \<and> s ! 0 = OP_RETURN h \<and> s ! 1 = 0x24 \<and> take 4 (drop 2 s) = TCCP_MAGIC_BYTES h"
  by (simp add: is_commitment_def match_commitment_eq)

lemma match_commitment_cases:
  "match_commitment h s = (if is_commitment h s then Inr (Some (take 32 (drop 6 s))) else Inr None)"
  by (simp add: is_commitment_iff match_commitment_eq)

lemma sint_of_index:
  fixes k :: nat
  assumes "k < 2 ^ 31"
  shows "sint (word_of_nat k :: 32 word) = int k"
proof -
  have "int k < 2 ^ 31" using assms by (simp add: of_nat_less_iff [of k "2 ^ 31", where 'a=int, simplified])
  hence "signed_take_bit 31 (int k) = int k"
    by (intro signed_take_bit_int_eq_self) simp_all
  thus ?thesis by (simp add: signed_of_nat)
qed

lemma index_not_minus_one:
  fixes k :: nat
  assumes "k < 2 ^ 31"
  shows "(word_of_nat k :: 32 word) \<noteq> - 1"
proof
  assume "(word_of_nat k :: 32 word) = - 1"
  hence "sint (word_of_nat k :: 32 word) = - 1" by simp
  with sint_of_index [OF assms] show False by simp
qed

lemma scan_outputs_no_commitment:
  "(\<And>out. out \<in> set outs \<Longrightarrow> \<not> is_commitment h (scriptPubKey out)) \<Longrightarrow>
   scan_outputs h outs i st = Inr (Some st)"
proof (induction outs arbitrary: i)
  case Nil
  show ?case by simp
next
  case (Cons out outs)
  obtain sp idx where st: "st = (sp, idx)" by (cases st)
  have "\<not> is_commitment h (scriptPubKey out)" using Cons.prems by simp
  moreover have "scan_outputs h outs (Suc i) st = Inr (Some st)"
    using Cons by simp
  ultimately show ?case by (simp add: st match_commitment_cases)
qed

lemma scan_outputs_second_commitment:
  "idx \<noteq> - 1 \<Longrightarrow> \<exists>out \<in> set outs. is_commitment h (scriptPubKey out) \<Longrightarrow>
   scan_outputs h outs i (sp, idx) = Inr None"
proof (induction outs arbitrary: i)
  case Nil
  thus ?case by simp
next
  case (Cons out outs)
  show ?case
  proof (cases "is_commitment h (scriptPubKey out)")
    case True
    with Cons.prems(1) show ?thesis by (simp add: match_commitment_cases)
  next
    case False
    with Cons.prems(2) have "\<exists>out \<in> set outs. is_commitment h (scriptPubKey out)" by simp
    with Cons.IH [OF Cons.prems(1)] False show ?thesis by (simp add: match_commitment_cases)
  qed
qed

lemma scan_outputs_first_commitment:
  assumes "\<And>out. out \<in> set pre \<Longrightarrow> \<not> is_commitment h (scriptPubKey out)"
    and "is_commitment h (scriptPubKey c)"
  shows "scan_outputs h (pre @ c # post) i (sp, - 1) =
         scan_outputs h post (Suc (i + length pre))
           (take 32 (drop 6 (scriptPubKey c)), word_of_nat (i + length pre))"
  using assms(1)
proof (induction pre arbitrary: i)
  case Nil
  show ?case using assms(2) by (simp add: match_commitment_cases)
next
  case (Cons out pre)
  have "\<not> is_commitment h (scriptPubKey out)" using Cons.prems by simp
  moreover have "scan_outputs h (pre @ c # post) (Suc i) (sp, - 1) =
         scan_outputs h post (Suc (Suc i + length pre))
           (take 32 (drop 6 (scriptPubKey c)), word_of_nat (Suc i + length pre))"
    using Cons.IH [of "Suc i"] Cons.prems by (simp add: ac_simps)
  ultimately show ?case by (simp add: match_commitment_cases ac_simps)
qed

lemma scan_outputs_never_fails: "scan_outputs h outs i st \<noteq> Inl e"
proof (induction outs arbitrary: i st)
  case Nil
  show ?case by simp
next
  case (Cons out outs)
  obtain sp idx where st: "st = (sp, idx)" by (cases st)
  show ?case using Cons by (simp add: st match_commitment_cases)
qed

lemma scan_outputs_index:
  "scan_outputs h outs i (sp, idx) = Inr (Some (sp', idx')) \<Longrightarrow>
   idx' = idx \<or> (\<exists>j. i \<le> j \<and> j < i + length outs \<and> idx' = word_of_nat j)"
proof (induction outs arbitrary: i sp idx)
  case Nil
  thus ?case by simp
next
  case (Cons out outs)
  show ?case
  proof (cases "is_commitment h (scriptPubKey out)")
    case False
    with Cons.prems have "scan_outputs h outs (Suc i) (sp, idx) = Inr (Some (sp', idx'))"
      by (simp add: match_commitment_cases)
    from Cons.IH [OF this] show ?thesis
    proof
      assume "idx' = idx"
      thus ?thesis by simp
    next
      assume "\<exists>j. Suc i \<le> j \<and> j < Suc i + length outs \<and> idx' = word_of_nat j"
      then obtain j where "Suc i \<le> j" "j < Suc i + length outs" "idx' = word_of_nat j" by blast
      hence "i \<le> j \<and> j < i + length (out # outs) \<and> idx' = word_of_nat j" by simp
      thus ?thesis by blast
    qed
  next
    case True
    with Cons.prems have run: "idx = - 1"
      "scan_outputs h outs (Suc i) (take 32 (drop 6 (scriptPubKey out)), word_of_nat i)
         = Inr (Some (sp', idx'))"
      by (auto simp add: match_commitment_cases split: if_splits)
    from Cons.IH [OF run(2)] show ?thesis
    proof
      assume "idx' = word_of_nat i"
      thus ?thesis by (intro disjI2 exI [of _ i]) simp
    next
      assume "\<exists>j. Suc i \<le> j \<and> j < Suc i + length outs \<and> idx' = word_of_nat j"
      then obtain j where "Suc i \<le> j" "j < Suc i + length outs" "idx' = word_of_nat j" by blast
      hence "i \<le> j \<and> j < i + length (out # outs) \<and> idx' = word_of_nat j" by simp
      thus ?thesis by blast
    qed
  qed
qed

lemma length_xor_blob: "length (xor_blob a b) = min (length a) (length b)"
  by (simp add: xor_blob_def)

lemma length_demo_digest: "length (demo_digest bs) = 32"
  by (simp add: demo_digest_def length_xor_blob Let_def)

lemma length_demo_merkle_single: "length (demo_merkle [demo_txid tx]) = 32"
  by (simp add: demo_merkle_def demo_txid_def length_xor_blob length_demo_digest uint256_zero_def)

lemma demo_host_constants:
  "OP_RETURN demo_host = 0x6a" "TCCP_MAGIC_BYTES demo_host = [0x54, 0x43, 0x43, 0x50]"
  by (simp_all add: demo_host_def)

lemma demo_is_commitment:
  "length p = 32 \<Longrightarrow> is_commitment demo_host (commitment_script demo_host p)"
  by (simp add: is_commitment_iff commitment_script_def demo_host_constants)

lemma demo_not_commitment: "\<not> is_commitment demo_host [0x76, 0xA9]"
  by (simp add: is_commitment_iff)

text \<open>
  C5. The scan takes an output script for a commitment exactly when it is 38 bytes long,
  byte 0 is \<open>OP_RETURN\<close>, byte 1 is \<open>0x24\<close> and bytes 2 to 5 are the magic tag; the
  decoded proof is then bytes 6 to 37 of the script. The last conjunct is the loop of
  lines 92-102 on a coinbase with this one output.
\<close>

theorem commitment_layout:
  "(is_commitment h script \<longleftrightarrow>
      length script = 38 \<and> script ! 0 = OP_RETURN h \<and> script ! 1 = 0x24
      \<and> take 4 (drop 2 script) = TCCP_MAGIC_BYTES h)
   \<and> match_commitment h script =
       (if is_commitment h script then Inr (Some (take 32 (drop 6 script))) else Inr None)
   \<and> scan_outputs h [\<lparr>nValue = v, scriptPubKey = script\<rparr>] i (sp, - 1) =
       Inr (Some (if is_commitment h script then (take 32 (drop 6 script), word_of_nat i)
                  else (sp, - 1)))"
  by (simp add: is_commitment_iff match_commitment_eq)

theorem commitment_layout_witness:
  "is_commitment demo_host (commitment_script demo_host (replicate 32 7))
   \<and> match_commitment demo_host (commitment_script demo_host (replicate 32 7))
       = Inr (Some (replicate 32 7))
   \<and> \<not> is_commitment demo_host (0x6a # 0x20 # replicate 36 0)"
proof -
  let ?s = "commitment_script demo_host (replicate 32 7)"
  note yes = commitment_layout [where h = demo_host and script = ?s]
  note no = commitment_layout [where h = demo_host and script = "0x6a # 0x20 # replicate 36 0"]
  have bytes: "take 32 (drop 6 ?s) = replicate 32 7"
    by (simp add: commitment_script_def demo_host_constants)
  have 1: "is_commitment demo_host ?s"
    using yes [THEN conjunct1] by (simp add: commitment_script_def demo_host_constants)
  have 2: "match_commitment demo_host ?s = Inr (Some (replicate 32 7))"
    using yes [THEN conjunct2, THEN conjunct1] 1 bytes by simp
  have 3: "\<not> is_commitment demo_host (0x6a # 0x20 # replicate 36 0)"
    using no [THEN conjunct1] by (simp add: demo_host_constants)
  from 1 2 3 show ?thesis by simp
qed

section \<open>VerifyBlock\<close>

text \<open>
  C7. Without a parent block handle \<open>VerifyBlock\<close> returns true, whatever the block and
  the parameters.
\<close>

theorem genesis_block_exempt:
  "VerifyBlock h block None params rnd = Some (Inr True)"
  by (simp add: VerifyBlock_def)

lemma VerifyBlock_no_commitment:
  assumes "vtx block = coinbaseTx # rest"
    and "\<And>out. out \<in> set (vout coinbaseTx) \<Longrightarrow> \<not> is_commitment h (scriptPubKey out)"
  shows "VerifyBlock h block (Some pindexPrev) params rnd = Some (Inr False)"
proof -
  have "scan_outputs h (vout coinbaseTx) 0 (uint256_zero, - 1) = Inr (Some (uint256_zero, - 1))"
    using assms(2) by (rule scan_outputs_no_commitment)
  thus ?thesis by (simp add: VerifyBlock_def vec_at_def assms(1))
qed

lemma VerifyBlock_two_commitments:
  assumes "vtx block = coinbaseTx # rest"
    and "length (vout coinbaseTx) < 2 ^ 31"
    and "2 \<le> length (filter (\<lambda>out. is_commitment h (scriptPubKey out)) (vout coinbaseTx))"
  shows "VerifyBlock h block (Some pindexPrev) params rnd = Some (Inr False)"
proof -
  let ?P = "\<lambda>out. is_commitment h (scriptPubKey out)"
  from assms(3) have "filter ?P (vout coinbaseTx) \<noteq> []" by auto
  hence "\<exists>out \<in> set (vout coinbaseTx). ?P out" by (simp add: filter_empty_conv)
  from split_list_first_prop [OF this]
  obtain pre c post where split: "vout coinbaseTx = pre @ c # post" "?P c"
    "\<forall>out \<in> set pre. \<not> ?P out"
    by blast
  have "filter ?P pre = []" using split(3) by (simp add: filter_empty_conv)
  with assms(3) split(1,2) have "filter ?P post \<noteq> []" by auto
  hence more: "\<exists>out \<in> set post. ?P out" by (simp add: filter_empty_conv)
  have "length pre < 2 ^ 31" using assms(2) split(1) by simp
  hence idx: "(word_of_nat (0 + length pre) :: 32 word) \<noteq> - 1"
    using index_not_minus_one [of "length pre"] by simp
  have "scan_outputs h (vout coinbaseTx) 0 (uint256_zero, - 1) =
        scan_outputs h post (Suc (0 + length pre))
          (take 32 (drop 6 (scriptPubKey c)), word_of_nat (0 + length pre))"
    unfolding split(1) using split(2,3) by (intro scan_outputs_first_commitment) auto
  also have "\<dots> = Inr None"
    using idx more by (rule scan_outputs_second_commitment)
  finally show ?thesis by (simp add: VerifyBlock_def vec_at_def assms(1))
qed

text \<open>
  C3. For a block with a parent and a coinbase: when no output of the coinbase matches
  the commitment layout, or two or more do, \<open>VerifyBlock\<close> returns false. The coinbase
  has fewer than \<open>2^31\<close> outputs, as every transaction that fits a block does, so that
  the \<open>int\<close> \<open>commitmentOutIndex\<close> holds the index it is assigned.
\<close>

theorem zero_or_duplicate_commitment_rejected:
  assumes "vtx block = coinbaseTx # rest"
    and "length (vout coinbaseTx) < 2 ^ 31"
    and "length (filter (\<lambda>out. is_commitment h (scriptPubKey out)) (vout coinbaseTx)) = 0
         \<or> 2 \<le> length (filter (\<lambda>out. is_commitment h (scriptPubKey out)) (vout coinbaseTx))"
  shows "VerifyBlock h block (Some pindexPrev) params rnd = Some (Inr False)"
  using assms(3)
proof
  assume "length (filter (\<lambda>out. is_commitment h (scriptPubKey out)) (vout coinbaseTx)) = 0"
  hence "\<And>out. out \<in> set (vout coinbaseTx) \<Longrightarrow> \<not> is_commitment h (scriptPubKey out)"
    by (simp add: filter_empty_conv)
  with assms(1) show ?thesis by (rule VerifyBlock_no_commitment)
next
  assume "2 \<le> length (filter (\<lambda>out. is_commitment h (scriptPubKey out)) (vout coinbaseTx))"
  with assms(1,2) show ?thesis by (rule VerifyBlock_two_commitments)
qed

theorem zero_or_duplicate_commitment_rejected_witness:
  "VerifyBlock demo_host \<lparr>vtx = [demo_coinbase]\<rparr> (Some demo_parent)
      \<lparr>nTCCPChallengeSize = 150\<rparr> demo_rnd = Some (Inr False)
   \<and> VerifyBlock demo_host
        \<lparr>vtx = [demo_coinbase\<lparr>vout := [demo_commitment (replicate 32 7),
                                       \<lparr>nValue = 5000000000, scriptPubKey = [0x76, 0xA9]\<rparr>,
                                       demo_commitment (replicate 32 7)]\<rparr>]\<rparr>
        (Some demo_parent) \<lparr>nTCCPChallengeSize = 150\<rparr> demo_rnd = Some (Inr False)"
proof -
  let ?two = "demo_coinbase\<lparr>vout := [demo_commitment (replicate 32 7),
      \<lparr>nValue = 5000000000, scriptPubKey = [0x76, 0xA9]\<rparr>, demo_commitment (replicate 32 7)]\<rparr>"
  have c: "is_commitment demo_host (commitment_script demo_host (replicate 32 7))"
    by (rule demo_is_commitment) simp
  have "VerifyBlock demo_host \<lparr>vtx = [demo_coinbase]\<rparr> (Some demo_parent)
      \<lparr>nTCCPChallengeSize = 150\<rparr> demo_rnd = Some (Inr False)"
    by (rule zero_or_duplicate_commitment_rejected [where coinbaseTx = demo_coinbase and rest = "[]"])
       (simp_all add: demo_coinbase_def demo_not_commitment)
  moreover have "VerifyBlock demo_host \<lparr>vtx = [?two]\<rparr> (Some demo_parent)
      \<lparr>nTCCPChallengeSize = 150\<rparr> demo_rnd = Some (Inr False)"
    by (rule zero_or_duplicate_commitment_rejected [where coinbaseTx = ?two and rest = "[]"])
       (simp_all add: demo_commitment_def demo_not_commitment c)
  ultimately show ?thesis by simp
qed

lemma match_commitment_never_fails: "match_commitment h script \<noteq> Inl e"
  by (simp add: match_commitment_eq)

lemma VerifyBlock_empty_block:
  "vtx block = [] \<Longrightarrow> VerifyBlock h block (Some pindexPrev) params rnd = Some (Inl OutOfBounds)"
  by (simp add: VerifyBlock_def vec_at_def)

text \<open>
  C10. For a block whose transaction list is not empty (and whose coinbase has fewer
  than \<open>2^31\<close> outputs) no access of \<open>VerifyBlock\<close> leaves its vector: the result is
  never an \<open>Inl\<close>, which covers the read of \<open>block.vtx[0]\<close>, the reads of the script
  bytes and the \<open>erase\<close> at \<open>commitmentOutIndex\<close>; and the test of one script never
  fails on any script, its reads being guarded by the length check.
\<close>

theorem VerifyBlock_in_bounds:
  assumes "vtx block \<noteq> []" and "length (vout (hd (vtx block))) < 2 ^ 31"
  shows "(\<forall>e. VerifyBlock h block pindexPrev params rnd \<noteq> Some (Inl e))
         \<and> (\<forall>script e. match_commitment h script \<noteq> Inl e)"
proof (intro conjI allI)
  fix script e
  show "match_commitment h script \<noteq> Inl e" by (rule match_commitment_never_fails)
next
  fix e
  show "VerifyBlock h block pindexPrev params rnd \<noteq> Some (Inl e)"
  proof (cases pindexPrev)
    case None
    thus ?thesis by (simp add: VerifyBlock_def)
  next
    case (Some prev)
    let ?cb = "hd (vtx block)"
    have cb: "vec_at (vtx block) 0 = Inr ?cb"
      using assms(1) by (simp add: vec_at_def hd_conv_nth)
    show ?thesis
    proof (cases "scan_outputs h (vout ?cb) 0 (uint256_zero, - 1)")
      case (Inl e')
      thus ?thesis by (simp add: scan_outputs_never_fails)
    next
      case (Inr res)
      show ?thesis
      proof (cases res)
        case None
        with Inr cb Some show ?thesis by (simp add: VerifyBlock_def)
      next
        case (Some st)
        obtain sp' idx' where st: "st = (sp', idx')" by (cases st)
        have scan: "scan_outputs h (vout ?cb) 0 (uint256_zero, - 1) = Inr (Some (sp', idx'))"
          using Inr Some st by simp
        show ?thesis
        proof (cases "idx' = - 1")
          case True
          with scan cb \<open>pindexPrev = Some prev\<close> show ?thesis by (simp add: VerifyBlock_def)
        next
          case False
          with scan_outputs_index [OF scan] obtain j where
            j: "j < length (vout ?cb)" "idx' = word_of_nat j"
            by auto
          have "j < 2 ^ 31" using j(1) assms(2) by simp
          hence "sint idx' = int j" unfolding j(2) by (rule sint_of_index)
          hence "vec_erase (vout ?cb) (sint idx') = Inr (take j (vout ?cb) @ drop (Suc j) (vout ?cb))"
            using j(1) by (simp add: vec_erase_def)
          moreover have "vec_set (vtx block) 0 x = Inr ((vtx block)[0 := x])" for x
            using assms(1) by (simp add: vec_set_def)
          ultimately show ?thesis
            using scan cb False \<open>pindexPrev = Some prev\<close>
            by (simp add: VerifyBlock_def Let_def split: option.split)
        qed
      qed
    qed
  qed
qed

theorem VerifyBlock_in_bounds_witness:
  "(\<forall>e. VerifyBlock demo_host
        \<lparr>vtx = [demo_coinbase\<lparr>vout := [\<lparr>nValue = 5000000000, scriptPubKey = [0x76, 0xA9]\<rparr>,
                                       demo_commitment (replicate 32 7)]\<rparr>]\<rparr>
        (Some demo_parent) \<lparr>nTCCPChallengeSize = 150\<rparr> demo_rnd \<noteq> Some (Inl e))
   \<and> (\<forall>e. match_commitment demo_host [0x6a] \<noteq> Inl e)"
proof -
  let ?b = "\<lparr>vtx = [demo_coinbase\<lparr>vout := [\<lparr>nValue = 5000000000, scriptPubKey = [0x76, 0xA9]\<rparr>,
                                       demo_commitment (replicate 32 7)]\<rparr>]\<rparr>"
  have 1: "vtx ?b \<noteq> []" by simp
  have 2: "length (vout (hd (vtx ?b))) < 2 ^ 31" by simp
  from VerifyBlock_in_bounds [OF 1 2, of demo_host "Some demo_parent"
      "\<lparr>nTCCPChallengeSize = 150\<rparr>" demo_rnd]
  show ?thesis by blast
qed

text \<open>
  C2. Take a coinbase without commitment output, the transactions \<open>rest\<close> after it, the
  Merkle root \<open>R\<close> of that block, and \<open>expected = ComputeProof(H, R, limit)\<close> computed
  with the external generator fixed at a constant \<open>c\<close>. Inserting one output with the
  commitment script of \<open>expected\<close> at any position \<open>j\<close> of the coinbase outputs, all
  else unchanged, gives a block that \<open>VerifyBlock\<close> accepts under the same constant.
\<close>

theorem commitment_round_trip:
  assumes magic: "length (TCCP_MAGIC_BYTES h) = 4"
    and none: "\<forall>out \<in> set (vout coinbaseTx). \<not> is_commitment h (scriptPubKey out)"
    and len: "Suc (length (vout coinbaseTx)) < 2 ^ 31"
    and pos: "j \<le> length (vout coinbaseTx)"
    and root: "R = BlockMerkleRoot h (coinbaseTx # rest)"
    and expected: "ComputeProof h H R params (\<lambda>k. c) = Some expected"
    and blob: "length expected = 32"
  shows "VerifyBlock h
           \<lparr>vtx = coinbaseTx\<lparr>vout := take j (vout coinbaseTx)
                      @ \<lparr>nValue = v, scriptPubKey = commitment_script h expected\<rparr>
                      # drop j (vout coinbaseTx)\<rparr> # rest\<rparr>
           (Some \<lparr>GetBlockHash = H\<rparr>) params (\<lambda>k. c)
         = Some (Inr True)"
proof -
  let ?pre = "take j (vout coinbaseTx)" and ?post = "drop j (vout coinbaseTx)"
  let ?c = "\<lparr>nValue = v, scriptPubKey = commitment_script h expected\<rparr>"
  have is_c: "is_commitment h (scriptPubKey ?c)"
    using magic blob by (simp add: is_commitment_iff commitment_script_def)
  have decoded: "take 32 (drop 6 (scriptPubKey ?c)) = expected"
    using magic blob by (simp add: commitment_script_def)
  have pre: "\<And>out. out \<in> set ?pre \<Longrightarrow> \<not> is_commitment h (scriptPubKey out)"
    using none by (auto dest: in_set_takeD)
  have post: "\<And>out. out \<in> set ?post \<Longrightarrow> \<not> is_commitment h (scriptPubKey out)"
    using none by (auto dest: in_set_dropD)
  have lenpre: "length ?pre = j" using pos by simp
  have "j < 2 ^ 31" using pos len by simp
  hence idx: "(word_of_nat j :: 32 word) \<noteq> - 1" "sint (word_of_nat j :: 32 word) = int j"
    by (rule index_not_minus_one, rule sint_of_index)
  have "scan_outputs h (?pre @ ?c # ?post) 0 (uint256_zero, - 1) =
        scan_outputs h ?post (Suc (0 + length ?pre))
          (take 32 (drop 6 (scriptPubKey ?c)), word_of_nat (0 + length ?pre))"
    using pre is_c by (rule scan_outputs_first_commitment)
  also have "\<dots> = Inr (Some (take 32 (drop 6 (scriptPubKey ?c)), word_of_nat (0 + length ?pre)))"
    using post by (rule scan_outputs_no_commitment)
  finally have scan: "scan_outputs h (?pre @ ?c # ?post) 0 (uint256_zero, - 1) =
      Inr (Some (expected, word_of_nat j))"
    using decoded lenpre by simp
  have erase: "vec_erase (?pre @ ?c # ?post) (int j) = Inr (vout coinbaseTx)"
    using pos by (simp add: vec_erase_def)
  show ?thesis
    using scan idx erase expected
    by (simp add: VerifyBlock_def vec_at_def vec_set_def Let_def root)
qed

theorem commitment_round_trip_witness:
  "VerifyBlock demo_host
     \<lparr>vtx = [demo_coinbase\<lparr>vout := [\<lparr>nValue = 5000000000, scriptPubKey = [0x76, 0xA9]\<rparr>,
        demo_commitment (the (ComputeProof demo_host demo_prevHash
           (BlockMerkleRoot demo_host [demo_coinbase]) \<lparr>nTCCPChallengeSize = 150\<rparr> demo_rnd))]\<rparr>]\<rparr>
     (Some demo_parent) \<lparr>nTCCPChallengeSize = 150\<rparr> demo_rnd
   = Some (Inr True)"
proof -
  let ?R = "BlockMerkleRoot demo_host [demo_coinbase]"
  let ?params = "\<lparr>nTCCPChallengeSize = 150\<rparr>"
  define expected where "expected = the (ComputeProof demo_host demo_prevHash ?R ?params demo_rnd)"
  have magic: "length (TCCP_MAGIC_BYTES demo_host) = 4" by (simp add: demo_host_constants)
  have none: "\<forall>out \<in> set (vout demo_coinbase). \<not> is_commitment demo_host (scriptPubKey out)"
    by (simp add: demo_coinbase_def demo_not_commitment)
  have len: "Suc (length (vout demo_coinbase)) < 2 ^ 31" by (simp add: demo_coinbase_def)
  have pos: "1 \<le> length (vout demo_coinbase)" by (simp add: demo_coinbase_def)
  have eproof: "ComputeProof demo_host demo_prevHash ?R ?params (\<lambda>k. uint256_zero) = Some expected"
    unfolding expected_def demo_rnd_def by (simp add: demo_ComputeProof_150)
  have blob: "length expected = 32"
    unfolding expected_def demo_rnd_def
    by (simp add: demo_ComputeProof_150 length_demo_merkle_single)
  from commitment_round_trip [where rest = "[]" and v = 0, OF magic none len pos refl eproof blob]
  show ?thesis
    unfolding expected_def
    by (simp add: demo_coinbase_def demo_commitment_def demo_parent_def demo_rnd_def)
qed

end
